theory Spec2Isabelle
  imports Complex_Main "HOL-Library.Product_Lexorder" "HOL-Library.Multiset"
begin

section \<open>The 3-year z-score of a closed-end fund's premium/discount\<close>

text \<open>
  A shallow embedding of \<^verbatim>\<open>calculate_z_score_3yr\<close> from
  \<^verbatim>\<open>server/scripts/calculate_zscore_tiingo.py\<close>. The function is one Python body working
  on pandas data frames; each definition below embeds the lines that bind the local
  variable of the same name, and \<open>calculate_z_score_3yr\<close> puts them together in the
  order of the source.

  Conventions of the embedding:
  \<^item> A data frame is the list of its rows, in row order.
  \<^item> A date is the triple (year, month, day). The source receives dates as strings
    \<^verbatim>\<open>'YYYY-MM-DD'\<close> (cut to that shape by \<^verbatim>\<open>get_tiingo_prices\<close>), merges on the strings and
    then parses them with \<^verbatim>\<open>pd.to_datetime\<close>. For such strings, string equality is equality
    of the triples and the order of the parsed timestamps (all at midnight) is the
    lexicographic order of the triples. Strings of another shape, and dates outside the
    range of a pandas timestamp, are outside the model.
  \<^item> Python floats are idealised as real numbers: \<open>+\<close>, \<open>-\<close>, \<open>*\<close>, \<open>/\<close> and \<open>sqrt\<close> are exact,
    so no rounding, infinity or NaN is modelled. The closes are numbers (a missing close
    is outside the model). The test \<^verbatim>\<open>stddev_pd == 0\<close> and the division it guards depend on
    how the floats round and on what a division by zero gives; for these the function is
    embedded a second time, as \<open>calculate_z_score_3yr_fp\<close>, with the float arithmetic as a
    parameter.
  \<^item> \<^verbatim>\<open>pd.np.sqrt\<close> is the square root (the alias \<^verbatim>\<open>pd.np\<close> exists in the pandas versions
    before 2.0).
  \<^item> \<^verbatim>\<open>sort_values\<close> is modelled as a stable sort. Rows with equal dates keep the order
    of the merge; for rows with pairwise distinct dates the sorted frame is unique.
  \<^item> The returned dict is the list of its (key, value) pairs in insertion order;
    \<open>map_of\<close> looks a key up. \<^verbatim>\<open>None\<close> is \<open>None\<close>.
\<close>

subsection \<open>Dates\<close>

type_synonym date = "nat \<times> nat \<times> nat"

definition year :: "date \<Rightarrow> nat" where
  "year d = fst d"

definition month :: "date \<Rightarrow> nat" where
  "month d = fst (snd d)"

definition day :: "date \<Rightarrow> nat" where
  "day d = snd (snd d)"

definition is_leap :: "nat \<Rightarrow> bool" where
  "is_leap y = (y mod 4 = 0 \<and> (y mod 100 \<noteq> 0 \<or> y mod 400 = 0))"

definition days_in_month :: "nat \<Rightarrow> nat \<Rightarrow> nat" where
  "days_in_month y m =
     (if m = 2 then (if is_leap y then 29 else 28)
      else if m = 4 \<or> m = 6 \<or> m = 9 \<or> m = 11 then 30
      else 31)"

definition valid_date :: "date \<Rightarrow> bool" where
  "valid_date d =
     (1 \<le> month d \<and> month d \<le> 12 \<and> 1 \<le> day d \<and> day d \<le> days_in_month (year d) (month d))"

text \<open>
  \<^verbatim>\<open>ts - pd.DateOffset(years=k)\<close>: the year goes back by \<open>k\<close>, the month stays, and the day
  is cut down to the length of that month in the new year (pandas adds a
  \<^verbatim>\<open>relativedelta\<close>, which takes the minimum of the day and the month's length).
\<close>

definition minus_years :: "date \<Rightarrow> nat \<Rightarrow> date" where
  "minus_years d k =
     (year d - k, month d, min (day d) (days_in_month (year d - k) (month d)))"

text \<open>\<^verbatim>\<open>strftime('%Y-%m-%d')\<close> on a timestamp (years have four digits there).\<close>

definition digit :: "nat \<Rightarrow> char" where
  "digit n = ''0123456789'' ! (n mod 10)"

definition strftime :: "date \<Rightarrow> string" where
  "strftime d =
     [digit (year d div 1000), digit (year d div 100), digit (year d div 10), digit (year d),
      CHR ''-'', digit (month d div 10), digit (month d),
      CHR ''-'', digit (day d div 10), digit (day d)]"

subsection \<open>Rows and values\<close>

text \<open>
  A row of \<^verbatim>\<open>price_data\<close> or \<^verbatim>\<open>nav_data\<close>: a dict with the keys \<^verbatim>\<open>'date'\<close> and \<^verbatim>\<open>'close'\<close>
  (the other keys of a Tiingo record are carried through the merge and never read).
  A row of \<^verbatim>\<open>merged\<close> has the columns \<^verbatim>\<open>date\<close>, \<^verbatim>\<open>close_price\<close> and \<^verbatim>\<open>close_nav\<close>.
\<close>

record dated =
  date :: date

record price_point = dated +
  close :: real

record merged_row = dated +
  close_price :: real
  close_nav :: real

datatype pyval = PStr string | PFloat real | PInt int

type_synonym pydict = "(string \<times> pyval) list"

subsection \<open>Merge, filter, sort (lines 111 to 125)\<close>

text \<open>
  \<^verbatim>\<open>pd.merge(price_df, nav_df, on='date', suffixes=('_price', '_nav'))\<close>: the inner join.
  Every row of the left frame, in order, is paired with every row of the right frame
  that has the same date.
\<close>

definition pd_merge :: "price_point list \<Rightarrow> price_point list \<Rightarrow> merged_row list" where
  "pd_merge price_df nav_df =
     concat (map (\<lambda>p. map (\<lambda>n. \<lparr>date = date p, close_price = close p, close_nav = close n\<rparr>)
                          (filter (\<lambda>n. date n = date p) nav_df))
                 price_df)"

definition positive_closes :: "merged_row \<Rightarrow> bool" where
  "positive_closes r = (close_price r > 0 \<and> close_nav r > 0)"

definition merged_filtered :: "price_point list \<Rightarrow> price_point list \<Rightarrow> merged_row list" where
  "merged_filtered price_df nav_df = filter positive_closes (pd_merge price_df nav_df)"

definition merged :: "price_point list \<Rightarrow> price_point list \<Rightarrow> merged_row list" where
  "merged price_df nav_df = sort_key date (merged_filtered price_df nav_df)"

subsection \<open>Window selection (lines 127 to 142)\<close>

definition available_data :: "price_point list \<Rightarrow> price_point list \<Rightarrow> date \<Rightarrow> merged_row list" where
  "available_data price_df nav_df current_date =
     filter (\<lambda>r. date r \<le> current_date) (merged price_df nav_df)"

definition actual_end_date :: "price_point list \<Rightarrow> price_point list \<Rightarrow> date \<Rightarrow> date" where
  "actual_end_date price_df nav_df current_date =
     Max (set (map date (available_data price_df nav_df current_date)))"

definition three_year_start_date :: "price_point list \<Rightarrow> price_point list \<Rightarrow> date \<Rightarrow> date" where
  "three_year_start_date price_df nav_df current_date =
     minus_years (actual_end_date price_df nav_df current_date) 3"

definition window_data :: "price_point list \<Rightarrow> price_point list \<Rightarrow> date \<Rightarrow> merged_row list" where
  "window_data price_df nav_df current_date =
     filter (\<lambda>r. three_year_start_date price_df nav_df current_date \<le> date r
                 \<and> date r \<le> actual_end_date price_df nav_df current_date)
            (available_data price_df nav_df current_date)"

subsection \<open>Statistics (lines 152 to 164)\<close>

definition prem_disc :: "merged_row list \<Rightarrow> real list" where
  "prem_disc w = map (\<lambda>r. close_price r / close_nav r - 1) w"

definition current_pd :: "merged_row list \<Rightarrow> real" where
  "current_pd w = last (prem_disc w)"

definition avg_pd :: "merged_row list \<Rightarrow> real" where
  "avg_pd w = sum_list (prem_disc w) / real (length (prem_disc w))"

definition variance :: "merged_row list \<Rightarrow> real" where
  "variance w = sum_list (map (\<lambda>x. (x - avg_pd w) ^ 2) (prem_disc w)) / real (length w)"

definition stddev_pd :: "merged_row list \<Rightarrow> real" where
  "stddev_pd w = sqrt (variance w)"

subsection \<open>The returned dicts\<close>

definition insufficient_result :: "merged_row list \<Rightarrow> pydict" where
  "insufficient_result w =
     [(''status'', PStr ''insufficient_data''),
      (''data_points'', PInt (int (length w))),
      (''required'', PInt 252)]"

definition active_result :: "real \<Rightarrow> merged_row list \<Rightarrow> date \<Rightarrow> date \<Rightarrow> pydict" where
  "active_result z_score w start_date end_date =
     [(''z_score'', PFloat z_score),
      (''current_pd'', PFloat (current_pd w)),
      (''current_pd_pct'', PFloat (current_pd w * 100)),
      (''avg_pd'', PFloat (avg_pd w)),
      (''avg_pd_pct'', PFloat (avg_pd w * 100)),
      (''stddev_pd'', PFloat (stddev_pd w)),
      (''stddev_pd_pct'', PFloat (stddev_pd w * 100)),
      (''data_points'', PInt (int (length w))),
      (''start_date'', PStr (strftime start_date)),
      (''end_date'', PStr (strftime end_date)),
      (''status'', PStr ''active'')]"

subsection \<open>The function\<close>

definition calculate_z_score_3yr ::
  "price_point list \<Rightarrow> price_point list \<Rightarrow> date \<Rightarrow> pydict option" where
  "calculate_z_score_3yr price_data nav_data current_date =
     (if price_data = [] \<or> nav_data = [] then None
      else if merged_filtered price_data nav_data = [] then None
      else if available_data price_data nav_data current_date = [] then None
      else
        let w = window_data price_data nav_data current_date;
            start_date = three_year_start_date price_data nav_data current_date;
            end_date = actual_end_date price_data nav_data current_date
        in if length w < 252 then Some (insufficient_result w)
           else if stddev_pd w = 0 then Some (active_result 0 w start_date end_date)
           else Some (active_result ((current_pd w - avg_pd w) / stddev_pd w) w start_date end_date))"

subsection \<open>The function over an arbitrary float arithmetic (lines 152 to 196)\<close>

text \<open>
  Up to the threshold check the function compares dates and tests closes for \<open>> 0\<close>; no
  float is computed, so \<open>window_data\<close> above is what the code selects. From line 153 on
  every value is the result of float operations. Here these operations are the fields of a
  record over any type \<open>'f\<close> of float values (a type that may hold infinities and NaN), so
  nothing is assumed about rounding, about the order in which pandas sums, or about the
  value of a division by zero:
  \<^item> \<open>fl_const\<close> is the float of a close or of a float literal, \<open>fl_of_int\<close> the float of a
    Python int (\<^verbatim>\<open>len(window_data)\<close>, \<^verbatim>\<open>100\<close>);
  \<^item> \<open>fsub\<close>, \<open>fmul\<close>, \<open>fdiv\<close> are \<^verbatim>\<open>-\<close>, \<^verbatim>\<open>*\<close>, \<^verbatim>\<open>/\<close>; \<open>fsquare\<close> is \<^verbatim>\<open>** 2\<close>; \<open>fsqrt\<close> is
    \<^verbatim>\<open>pd.np.sqrt\<close>;
  \<^item> \<open>fsum\<close> and \<open>fmean\<close> are \<^verbatim>\<open>Series.sum\<close> and \<^verbatim>\<open>Series.mean\<close>;
  \<^item> \<open>feq_zero\<close> is the comparison \<^verbatim>\<open>== 0\<close>.
\<close>

record 'f float_ops =
  fl_const :: "real \<Rightarrow> 'f"
  fl_of_int :: "int \<Rightarrow> 'f"
  fsub :: "'f \<Rightarrow> 'f \<Rightarrow> 'f"
  fmul :: "'f \<Rightarrow> 'f \<Rightarrow> 'f"
  fdiv :: "'f \<Rightarrow> 'f \<Rightarrow> 'f"
  fsquare :: "'f \<Rightarrow> 'f"
  fsqrt :: "'f \<Rightarrow> 'f"
  fsum :: "'f list \<Rightarrow> 'f"
  fmean :: "'f list \<Rightarrow> 'f"
  feq_zero :: "'f \<Rightarrow> bool"

datatype 'f fpval = FStr string | FFloat 'f | FInt int

type_synonym 'f fpdict = "(string \<times> 'f fpval) list"

definition prem_disc_fp :: "'f float_ops \<Rightarrow> merged_row list \<Rightarrow> 'f list" where
  "prem_disc_fp ops w =
     map (\<lambda>r. fsub ops (fdiv ops (fl_const ops (close_price r)) (fl_const ops (close_nav r)))
                     (fl_const ops 1)) w"

definition current_pd_fp :: "'f float_ops \<Rightarrow> merged_row list \<Rightarrow> 'f" where
  "current_pd_fp ops w = last (prem_disc_fp ops w)"

definition avg_pd_fp :: "'f float_ops \<Rightarrow> merged_row list \<Rightarrow> 'f" where
  "avg_pd_fp ops w = fmean ops (prem_disc_fp ops w)"

definition variance_fp :: "'f float_ops \<Rightarrow> merged_row list \<Rightarrow> 'f" where
  "variance_fp ops w =
     fdiv ops (fsum ops (map (\<lambda>x. fsquare ops (fsub ops x (avg_pd_fp ops w))) (prem_disc_fp ops w)))
              (fl_of_int ops (int (length w)))"

definition stddev_pd_fp :: "'f float_ops \<Rightarrow> merged_row list \<Rightarrow> 'f" where
  "stddev_pd_fp ops w = fsqrt ops (variance_fp ops w)"

definition insufficient_result_fp :: "merged_row list \<Rightarrow> 'f fpdict" where
  "insufficient_result_fp w =
     [(''status'', FStr ''insufficient_data''),
      (''data_points'', FInt (int (length w))),
      (''required'', FInt 252)]"

definition active_result_fp ::
  "'f float_ops \<Rightarrow> 'f \<Rightarrow> merged_row list \<Rightarrow> date \<Rightarrow> date \<Rightarrow> 'f fpdict" where
  "active_result_fp ops z_score w start_date end_date =
     [(''z_score'', FFloat z_score),
      (''current_pd'', FFloat (current_pd_fp ops w)),
      (''current_pd_pct'', FFloat (fmul ops (current_pd_fp ops w) (fl_of_int ops 100))),
      (''avg_pd'', FFloat (avg_pd_fp ops w)),
      (''avg_pd_pct'', FFloat (fmul ops (avg_pd_fp ops w) (fl_of_int ops 100))),
      (''stddev_pd'', FFloat (stddev_pd_fp ops w)),
      (''stddev_pd_pct'', FFloat (fmul ops (stddev_pd_fp ops w) (fl_of_int ops 100))),
      (''data_points'', FInt (int (length w))),
      (''start_date'', FStr (strftime start_date)),
      (''end_date'', FStr (strftime end_date)),
      (''status'', FStr ''active'')]"

definition calculate_z_score_3yr_fp ::
  "'f float_ops \<Rightarrow> price_point list \<Rightarrow> price_point list \<Rightarrow> date \<Rightarrow> 'f fpdict option" where
  "calculate_z_score_3yr_fp ops price_data nav_data current_date =
     (if price_data = [] \<or> nav_data = [] then None
      else if merged_filtered price_data nav_data = [] then None
      else if available_data price_data nav_data current_date = [] then None
      else
        let w = window_data price_data nav_data current_date;
            start_date = three_year_start_date price_data nav_data current_date;
            end_date = actual_end_date price_data nav_data current_date
        in if length w < 252 then Some (insufficient_result_fp w)
           else if feq_zero ops (stddev_pd_fp ops w)
             then Some (active_result_fp ops (fl_const ops 0) w start_date end_date)
           else Some (active_result_fp ops
                        (fdiv ops (fsub ops (current_pd_fp ops w) (avg_pd_fp ops w))
                                  (stddev_pd_fp ops w))
                        w start_date end_date))"


text \<open>
  One arithmetic to run the function with: exact arithmetic on the reals, with \<open>None\<close> for
  the result of an operation that has no real value (a division by zero, the square root
  of a negative number) and for every operation on such a result, as a NaN propagates.
  On inputs where no float operation rounds, it computes what the floats compute.
\<close>

definition lift2 :: "(real \<Rightarrow> real \<Rightarrow> real) \<Rightarrow> real option \<Rightarrow> real option \<Rightarrow> real option" where
  "lift2 f a b = (case a of None \<Rightarrow> None | Some x \<Rightarrow> (case b of None \<Rightarrow> None | Some y \<Rightarrow> Some (f x y)))"

definition exact_div :: "real option \<Rightarrow> real option \<Rightarrow> real option" where
  "exact_div a b =
     (case a of None \<Rightarrow> None
      | Some x \<Rightarrow> (case b of None \<Rightarrow> None | Some y \<Rightarrow> if y = 0 then None else Some (x / y)))"

definition exact_sqrt :: "real option \<Rightarrow> real option" where
  "exact_sqrt a = (case a of None \<Rightarrow> None | Some x \<Rightarrow> if x < 0 then None else Some (sqrt x))"

definition exact_sum :: "real option list \<Rightarrow> real option" where
  "exact_sum xs = foldr (lift2 (+)) xs (Some 0)"

definition exact_ops :: "real option float_ops" where
  "exact_ops =
     \<lparr>fl_const = Some,
      fl_of_int = (\<lambda>i. Some (real_of_int i)),
      fsub = lift2 (-),
      fmul = lift2 (*),
      fdiv = exact_div,
      fsquare = map_option (\<lambda>x. x\<^sup>2),
      fsqrt = exact_sqrt,
      fsum = exact_sum,
      fmean = (\<lambda>xs. exact_div (exact_sum xs) (Some (real (length xs)))),
      feq_zero = (\<lambda>a. a = Some 0)\<rparr>"

text \<open>
  With this arithmetic the second embedding returns what the first returns, value by
  value (\<open>exact_ops_refines\<close> below); \<open>lift_dict\<close> carries a dict of the first into the
  value type of the second.
\<close>

definition lift_val :: "pyval \<Rightarrow> real option fpval" where
  "lift_val v = (case v of PStr s \<Rightarrow> FStr s | PFloat x \<Rightarrow> FFloat (Some x) | PInt i \<Rightarrow> FInt i)"

definition lift_dict :: "pydict \<Rightarrow> real option fpdict" where
  "lift_dict r = map (\<lambda>(k, v). (k, lift_val v)) r"

subsection \<open>The specification's formula and example series\<close>

text \<open>
  \<open>population_stddev_spec\<close> is the formula of the specification, written with sums over
  the indices of the window; it is compared with \<open>stddev_pd\<close> below. The remaining
  definitions are concrete inputs on which the theorems are instantiated: \<open>series\<close>
  builds \<open>k\<close> rows dated \<open>dt 0, \<dots>, dt (k - 1)\<close>, \<open>aligned_series\<close> is the frame their
  merge yields, and \<open>day_of_2023\<close> enumerates 28 days in each month of 2023.
\<close>

definition population_stddev_spec :: "real list \<Rightarrow> real" where
  "population_stddev_spec xs =
     sqrt ((\<Sum>i<length xs. (xs ! i - (\<Sum>j<length xs. xs ! j) / real (length xs))\<^sup>2)
           / real (length xs))"

definition series :: "(nat \<Rightarrow> date) \<Rightarrow> (nat \<Rightarrow> real) \<Rightarrow> nat \<Rightarrow> price_point list" where
  "series dt c k = map (\<lambda>i. \<lparr>date = dt i, close = c i\<rparr>) [0..<k]"

definition aligned_series ::
  "(nat \<Rightarrow> date) \<Rightarrow> (nat \<Rightarrow> real) \<Rightarrow> (nat \<Rightarrow> real) \<Rightarrow> nat \<Rightarrow> merged_row list" where
  "aligned_series dt f g k =
     map (\<lambda>i. \<lparr>date = dt i, close_price = f i, close_nav = g i\<rparr>) [0..<k]"

definition day_of_2023 :: "nat \<Rightarrow> date" where
  "day_of_2023 i = (2023, 1 + i div 28, 1 + i mod 28)"

definition two_level :: "nat \<Rightarrow> real" where
  "two_level i = (if i < 126 then 10 else 20)"

definition as_of :: date where
  "as_of = (2024, 1, 1)"

definition ex_price :: "price_point list" where
  "ex_price = series day_of_2023 two_level 252"

definition ex_nav :: "price_point list" where
  "ex_nav = series day_of_2023 (\<lambda>i. 10) 252"


definition ex_small_price :: "price_point list" where
  "ex_small_price =
     [\<lparr>date = (2024, 3, 5), close = 10\<rparr>,
      \<lparr>date = (2021, 2, 27), close = 10\<rparr>,
      \<lparr>date = (2024, 2, 29), close = 11\<rparr>,
      \<lparr>date = (2021, 2, 28), close = 9\<rparr>,
      \<lparr>date = (2023, 6, 15), close = 10\<rparr>]"

definition ex_small_nav :: "price_point list" where
  "ex_small_nav =
     [\<lparr>date = (2021, 2, 27), close = 10\<rparr>,
      \<lparr>date = (2021, 2, 28), close = 10\<rparr>,
      \<lparr>date = (2023, 6, 15), close = 10\<rparr>,
      \<lparr>date = (2024, 2, 29), close = 10\<rparr>,
      \<lparr>date = (2024, 3, 5), close = 10\<rparr>]"

definition ex_bad_price :: "price_point list" where
  "ex_bad_price =
     [\<lparr>date = (2024, 1, 2), close = 10\<rparr>,
      \<lparr>date = (2024, 1, 3), close = 0\<rparr>,
      \<lparr>date = (2024, 1, 4), close = 10\<rparr>,
      \<lparr>date = (2024, 1, 5), close = 10\<rparr>]"

definition ex_bad_nav :: "price_point list" where
  "ex_bad_nav =
     [\<lparr>date = (2024, 1, 2), close = 9\<rparr>,
      \<lparr>date = (2024, 1, 3), close = 9\<rparr>,
      \<lparr>date = (2024, 1, 4), close = - 1\<rparr>,
      \<lparr>date = (2024, 1, 8), close = 9\<rparr>]"

section \<open>Properties\<close>

subsection \<open>Reaching the threshold check\<close>

lemma pd_merge_Nil_left: "pd_merge [] n = []"
  by (simp add: pd_merge_def)

lemma pd_merge_Nil_right: "pd_merge p [] = []"
  by (simp add: pd_merge_def)

lemma merged_Nil_iff: "merged p n = [] \<longleftrightarrow> merged_filtered p n = []"
proof -
  have "length (merged p n) = length (merged_filtered p n)"
    by (simp add: merged_def)
  then show ?thesis by (metis length_0_conv)
qed

lemma available_nonempty:
  assumes "available_data p n d \<noteq> []"
  shows "p \<noteq> [] \<and> n \<noteq> [] \<and> merged_filtered p n \<noteq> []"
proof -
  from assms have m: "merged p n \<noteq> []"
    by (auto simp: available_data_def)
  then have mf: "merged_filtered p n \<noteq> []"
    by (simp add: merged_Nil_iff)
  then have "pd_merge p n \<noteq> []"
    by (auto simp: merged_filtered_def)
  then have "p \<noteq> [] \<and> n \<noteq> []"
    using pd_merge_Nil_left pd_merge_Nil_right by metis
  with mf show ?thesis by simp
qed

lemma window_nonempty:
  assumes "window_data p n d \<noteq> []"
  shows "available_data p n d \<noteq> []"
  using assms by (auto simp: window_data_def)

lemma calc_reached:
  assumes "available_data p n d \<noteq> []"
  shows "calculate_z_score_3yr p n d =
     (if length (window_data p n d) < 252 then Some (insufficient_result (window_data p n d))
      else if stddev_pd (window_data p n d) = 0
        then Some (active_result 0 (window_data p n d)
                     (three_year_start_date p n d) (actual_end_date p n d))
      else Some (active_result
                   ((current_pd (window_data p n d) - avg_pd (window_data p n d))
                      / stddev_pd (window_data p n d))
                   (window_data p n d) (three_year_start_date p n d) (actual_end_date p n d)))"
  using available_nonempty [OF assms] assms
  by (simp add: calculate_z_score_3yr_def Let_def)

lemma calc_None_iff:
  "calculate_z_score_3yr p n d = None \<longleftrightarrow> available_data p n d = []"
proof (cases "available_data p n d = []")
  case True
  then show ?thesis by (simp add: calculate_z_score_3yr_def)
next
  case False
  then show ?thesis by (simp add: calc_reached)
qed

lemma accepted_reached:
  assumes "252 \<le> length (window_data p n d)"
  shows "available_data p n d \<noteq> []"
proof -
  from assms have "window_data p n d \<noteq> []" by auto
  then show ?thesis by (rule window_nonempty)
qed

text \<open>
  Claim C4. Once the window has been selected: with fewer than 252 rows the result is
  exactly the dict with status \<^verbatim>\<open>insufficient_data\<close>, the row count and the threshold 252
  (no statistics in it); with 252 rows or more the result has status \<^verbatim>\<open>active\<close>.
\<close>

theorem threshold_policy:
  assumes "available_data price_data nav_data current_date \<noteq> []"
  shows "(length (window_data price_data nav_data current_date) < 252 \<longrightarrow>
            calculate_z_score_3yr price_data nav_data current_date =
              Some [(''status'', PStr ''insufficient_data''),
                    (''data_points'', PInt (int (length (window_data price_data nav_data current_date)))),
                    (''required'', PInt 252)])
       \<and> (252 \<le> length (window_data price_data nav_data current_date) \<longrightarrow>
            (\<exists>r. calculate_z_score_3yr price_data nav_data current_date = Some r
               \<and> map_of r ''status'' = Some (PStr ''active'')))"
  by (simp add: calc_reached [OF assms] insufficient_result_def active_result_def)

text \<open>
  Claim C8. If either input series is empty, or no merged row has two positive closes, or
  no aligned row is dated on or before the as-of date, the function returns \<^verbatim>\<open>None\<close>.
\<close>

theorem no_data_outcome:
  assumes "price_data = [] \<or> nav_data = [] \<or> merged_filtered price_data nav_data = []
           \<or> (\<forall>r \<in> set (merged price_data nav_data). \<not> date r \<le> current_date)"
  shows "calculate_z_score_3yr price_data nav_data current_date = None"
proof -
  have "available_data price_data nav_data current_date = []"
  proof (rule ccontr)
    assume ne: "available_data price_data nav_data current_date \<noteq> []"
    then obtain r where "r \<in> set (available_data price_data nav_data current_date)"
      by (meson last_in_set)
    then have "r \<in> set (merged price_data nav_data)" "date r \<le> current_date"
      by (auto simp: available_data_def)
    with available_nonempty [OF ne] assms show False by blast
  qed
  then show ?thesis by (simp add: calc_None_iff)
qed

subsection \<open>Mean and standard deviation\<close>

lemma sum_list_nth: "sum_list (xs::real list) = (\<Sum>i<length xs. xs ! i)"
  by (simp add: sum_list_sum_nth lessThan_atLeast0)

lemma sum_list_map_nth: "sum_list (map f xs) = (\<Sum>i<length xs. (f (xs ! i) :: real))"
  by (simp add: sum_list_sum_nth lessThan_atLeast0)

lemma avg_pd_index: "avg_pd w = (\<Sum>i<length w. prem_disc w ! i) / real (length w)"
  by (simp add: avg_pd_def sum_list_nth prem_disc_def)

lemma stddev_pd_spec: "stddev_pd w = population_stddev_spec (prem_disc w)"
proof -
  have len: "length (prem_disc w) = length w"
    by (simp add: prem_disc_def)
  have "variance w =
      (\<Sum>i<length (prem_disc w). (prem_disc w ! i - avg_pd w)\<^sup>2) / real (length w)"
    unfolding variance_def by (simp only: sum_list_map_nth)
  then show ?thesis
    by (simp add: stddev_pd_def population_stddev_spec_def len avg_pd_index)
qed

lemma variance_nonneg: "0 \<le> variance w"
  unfolding variance_def by (intro divide_nonneg_nonneg sum_list_nonneg) auto

lemma stddev_zero_iff:
  assumes "w \<noteq> []"
  shows "stddev_pd w = 0 \<longleftrightarrow> (\<forall>x \<in> set (prem_disc w). x = avg_pd w)"
proof -
  have "stddev_pd w = 0 \<longleftrightarrow> sum_list (map (\<lambda>x. (x - avg_pd w)\<^sup>2) (prem_disc w)) = 0"
    using assms by (simp add: stddev_pd_def variance_def)
  also have "\<dots> \<longleftrightarrow> (\<forall>y \<in> set (map (\<lambda>x. (x - avg_pd w)\<^sup>2) (prem_disc w)). y = 0)"
    by (rule sum_list_nonneg_eq_0_iff) auto
  also have "\<dots> \<longleftrightarrow> (\<forall>x \<in> set (prem_disc w). x = avg_pd w)"
    by auto
  finally show ?thesis .
qed

lemma avg_of_constant:
  assumes "w \<noteq> []" and "\<forall>x \<in> set (prem_disc w). x = c"
  shows "avg_pd w = c"
proof -
  have "prem_disc w = replicate (length (prem_disc w)) c"
    using assms(2) by (simp add: replicate_length_same)
  then have "sum_list (prem_disc w) = real (length (prem_disc w)) * c"
    by (metis sum_list_replicate)
  moreover have "length (prem_disc w) \<noteq> 0"
    using assms(1) by (simp add: prem_disc_def)
  ultimately show ?thesis
    by (simp add: avg_pd_def)
qed

lemma stddev_zero_if_constant:
  assumes "w \<noteq> []" and "\<forall>x \<in> set (prem_disc w). x = c"
  shows "stddev_pd w = 0"
  using assms avg_of_constant [OF assms] by (simp add: stddev_zero_iff)

lemma current_pd_in_set: "w \<noteq> [] \<Longrightarrow> current_pd w \<in> set (prem_disc w)"
proof -
  assume "w \<noteq> []"
  then have "prem_disc w \<noteq> []" by (simp add: prem_disc_def)
  then show ?thesis unfolding current_pd_def by (rule last_in_set)
qed

lemma current_pd_last: "w \<noteq> [] \<Longrightarrow> current_pd w = close_price (last w) / close_nav (last w) - 1"
  by (simp add: current_pd_def prem_disc_def last_map)

text \<open>
  Claim C1. Whenever the window passes the threshold check (at least 252 rows), the
  function returns a dict whose \<^verbatim>\<open>stddev_pd\<close> is the population standard deviation of the
  window's premium/discount values: the square root of the sum of the squared deviations
  from the mean, divided by the number \<open>n\<close> of rows (not \<open>n - 1\<close>), and \<^verbatim>\<open>data_points\<close> is
  that \<open>n\<close>.
\<close>

theorem population_convention:
  assumes "252 \<le> length (window_data price_data nav_data current_date)"
  shows "\<exists>r. calculate_z_score_3yr price_data nav_data current_date = Some r
           \<and> map_of r ''stddev_pd'' =
               Some (PFloat (population_stddev_spec
                               (prem_disc (window_data price_data nav_data current_date))))
           \<and> map_of r ''data_points'' =
               Some (PInt (int (length (prem_disc (window_data price_data nav_data current_date)))))"
  using assms
  by (simp add: calc_reached [OF accepted_reached [OF assms]] active_result_def
        stddev_pd_spec prem_disc_def)

subsection \<open>Alignment and window\<close>

lemma minus_years_le: "minus_years d k \<le> d"
  by (cases d) (auto simp: minus_years_def year_def month_def day_def)

lemma set_pd_merge:
  "set (pd_merge p n) =
     {\<lparr>date = date a, close_price = close a, close_nav = close b\<rparr> | a b.
        a \<in> set p \<and> b \<in> set n \<and> date b = date a}"
  by (auto simp: pd_merge_def)

lemma set_merged:
  "set (merged p n) =
     {\<lparr>date = date a, close_price = close a, close_nav = close b\<rparr> | a b.
        a \<in> set p \<and> b \<in> set n \<and> date b = date a \<and> 0 < close a \<and> 0 < close b}"
  by (fastforce simp: merged_def merged_filtered_def set_pd_merge positive_closes_def)

lemma sorted_le_last:
  fixes xs :: "'a::linorder list"
  shows "sorted xs \<Longrightarrow> x \<in> set xs \<Longrightarrow> x \<le> last xs"
  by (induction xs) auto

lemma sorted_merged: "sorted (map date (merged p n))"
  by (simp add: merged_def)

lemma sorted_available: "sorted (map date (available_data p n d))"
  unfolding available_data_def by (rule sorted_filter) (rule sorted_merged)

lemma sorted_window: "sorted (map date (window_data p n d))"
  unfolding window_data_def by (rule sorted_filter) (rule sorted_available)

lemma end_in_available:
  assumes "available_data p n d \<noteq> []"
  shows "\<exists>r \<in> set (available_data p n d). date r = actual_end_date p n d"
proof -
  have "Max (set (map date (available_data p n d))) \<in> set (map date (available_data p n d))"
    using assms by (intro Max_in) auto
  then show ?thesis by (auto simp: actual_end_date_def)
qed

lemma available_le_end:
  assumes "r \<in> set (available_data p n d)"
  shows "date r \<le> actual_end_date p n d"
  unfolding actual_end_date_def using assms by (intro Max_ge) auto

lemma end_le_current:
  assumes "available_data p n d \<noteq> []"
  shows "actual_end_date p n d \<le> d"
  using end_in_available [OF assms] by (auto simp: available_data_def)

lemma window_eq_filter_available:
  "window_data p n d =
     filter (\<lambda>r. three_year_start_date p n d \<le> date r) (available_data p n d)"
  unfolding window_data_def
  by (rule filter_cong) (auto simp: available_le_end)

lemma window_eq_filter_merged:
  assumes "available_data p n d \<noteq> []"
  shows "window_data p n d =
     filter (\<lambda>r. three_year_start_date p n d \<le> date r \<and> date r \<le> actual_end_date p n d)
            (merged p n)"
proof -
  have "date r \<le> d" if "date r \<le> actual_end_date p n d" for r :: merged_row
    using that end_le_current [OF assms] by simp
  then show ?thesis
    unfolding window_data_def available_data_def filter_filter
    by (intro filter_cong) auto
qed

lemma window_last_date:
  assumes "window_data p n d \<noteq> []"
  shows "date (last (window_data p n d)) = actual_end_date p n d"
proof (rule antisym)
  have "last (window_data p n d) \<in> set (window_data p n d)"
    using assms by (rule last_in_set)
  then show "date (last (window_data p n d)) \<le> actual_end_date p n d"
    by (simp add: window_data_def)
next
  have av: "available_data p n d \<noteq> []"
    using assms by (rule window_nonempty)
  then obtain r where r: "r \<in> set (available_data p n d)" "date r = actual_end_date p n d"
    using end_in_available by blast
  have "three_year_start_date p n d \<le> date r"
    using r(2) by (simp add: three_year_start_date_def minus_years_le)
  with r have "r \<in> set (window_data p n d)"
    by (simp add: window_data_def)
  then have "date r \<in> set (map date (window_data p n d))"
    by simp
  then have "date r \<le> last (map date (window_data p n d))"
    using sorted_window by (intro sorted_le_last)
  then show "actual_end_date p n d \<le> date (last (window_data p n d))"
    using assms r(2) by (simp add: last_map)
qed

lemma window_le_last:
  assumes "r \<in> set (window_data p n d)"
  shows "date r \<le> date (last (window_data p n d))"
proof -
  have ne: "window_data p n d \<noteq> []" using assms by auto
  have "date r \<le> actual_end_date p n d"
    using assms by (simp add: window_data_def)
  then show ?thesis by (simp add: window_last_date [OF ne])
qed

text \<open>
  Claim C2. For a window of at least 252 rows whose standard deviation is not zero:
  the premium/discount of row \<open>i\<close> is \<open>close_price / close_nav - 1\<close>; the window is sorted
  ascending by date and \<^verbatim>\<open>current_pd\<close> is the premium/discount of its last row, whose date is
  the window's end date and the greatest date of the window; \<^verbatim>\<open>avg_pd\<close> is the mean over all
  rows of the window (the last one included); \<^verbatim>\<open>stddev_pd\<close> is the population standard
  deviation; and \<^verbatim>\<open>z_score\<close> is \<open>(current_pd - avg_pd) / stddev_pd\<close>.
\<close>

theorem z_score_formula:
  assumes "252 \<le> length (window_data price_data nav_data current_date)"
    and "stddev_pd (window_data price_data nav_data current_date) \<noteq> 0"
  shows "let w = window_data price_data nav_data current_date;
             n = length w;
             pd = (\<lambda>i. close_price (w ! i) / close_nav (w ! i) - 1);
             cur = close_price (last w) / close_nav (last w) - 1;
             avg = (\<Sum>i<n. pd i) / real n;
             sd = sqrt ((\<Sum>i<n. (pd i - avg)\<^sup>2) / real n)
         in sorted (map date w)
          \<and> date (last w) = actual_end_date price_data nav_data current_date
          \<and> (\<forall>x \<in> set w. date x \<le> date (last w))
          \<and> cur = pd (n - 1)
          \<and> sd \<noteq> 0
          \<and> (\<exists>r. calculate_z_score_3yr price_data nav_data current_date = Some r
                \<and> map_of r ''current_pd'' = Some (PFloat cur)
                \<and> map_of r ''avg_pd'' = Some (PFloat avg)
                \<and> map_of r ''stddev_pd'' = Some (PFloat sd)
                \<and> map_of r ''z_score'' = Some (PFloat ((cur - avg) / sd))
                \<and> map_of r ''status'' = Some (PStr ''active''))"
proof -
  let ?w = "window_data price_data nav_data current_date"
  let ?pd = "\<lambda>i. close_price (?w ! i) / close_nav (?w ! i) - 1"
  have ne: "?w \<noteq> []" using assms(1) by auto
  have pd: "prem_disc ?w ! i = ?pd i" if "i < length ?w" for i
    using that by (simp add: prem_disc_def)
  have avg: "avg_pd ?w = (\<Sum>i<length ?w. ?pd i) / real (length ?w)"
    by (simp add: avg_pd_index pd)
  have sd: "stddev_pd ?w =
      sqrt ((\<Sum>i<length ?w. (?pd i - (\<Sum>i<length ?w. ?pd i) / real (length ?w))\<^sup>2)
            / real (length ?w))"
    by (simp add: stddev_pd_spec population_stddev_spec_def prem_disc_def)
  have res: "calculate_z_score_3yr price_data nav_data current_date =
      Some (active_result ((current_pd ?w - avg_pd ?w) / stddev_pd ?w) ?w
              (three_year_start_date price_data nav_data current_date)
              (actual_end_date price_data nav_data current_date))"
    using assms by (simp add: calc_reached [OF accepted_reached [OF assms(1)]])
  have le: "\<forall>x \<in> set ?w. date x \<le> date (last ?w)"
    by (simp add: window_le_last)
  have sd0: "sqrt ((\<Sum>i<length ?w. (?pd i - (\<Sum>i<length ?w. ?pd i) / real (length ?w))\<^sup>2)
            / real (length ?w)) \<noteq> 0"
    using assms(2) unfolding sd .
  have cur: "close_price (last ?w) / close_nav (last ?w) - 1 = ?pd (length ?w - 1)"
    using ne by (simp add: last_conv_nth)
  show ?thesis
    unfolding Let_def res
    apply (intro conjI)
         apply (rule sorted_window)
        apply (rule window_last_date [OF ne])
       apply (rule le)
      apply (rule cur)
     apply (rule sd0)
    apply (rule exI)
    apply (intro conjI)
         apply (rule refl)
        apply (simp add: active_result_def current_pd_last [OF ne])
       apply (simp add: active_result_def avg)
      apply (simp add: active_result_def sd)
     apply (simp add: active_result_def current_pd_last [OF ne] avg sd)
    apply (simp add: active_result_def)
    done
qed

lemma actual_end_date_Max:
  "actual_end_date p n d = Max {date r | r. r \<in> set (merged p n) \<and> date r \<le> d}"
proof -
  have "set (map date (available_data p n d)) = {date r | r. r \<in> set (merged p n) \<and> date r \<le> d}"
    by (auto simp: available_data_def)
  then show ?thesis by (simp only: actual_end_date_def)
qed

lemma minus_years_same_day:
  assumes "valid_date d" and "\<not> (month d = 2 \<and> day d = 29)"
  shows "minus_years d k = (year d - k, month d, day d)"
  using assms
  by (auto simp: minus_years_def valid_date_def days_in_month_def min_def split: if_splits)

text \<open>
  Claim C3, as amended. Whenever some aligned row is dated on or before the as-of date:
  the end date is the greatest aligned date not after the as-of date; the start date has
  the end date's year minus 3, the same month, and the end date's day cut down to the
  length of that month (so it is the same month and day three years earlier for every
  valid end date other than 29 February, which goes to 28 February); the window is exactly
  the aligned rows dated from start to end inclusive; and no row of the window is dated
  after the as-of date or before the start date.
\<close>

theorem window_selection:
  assumes "available_data price_data nav_data current_date \<noteq> []"
  shows "let end_date = actual_end_date price_data nav_data current_date;
             start_date = three_year_start_date price_data nav_data current_date;
             w = window_data price_data nav_data current_date
         in end_date = Max {date r | r. r \<in> set (merged price_data nav_data) \<and> date r \<le> current_date}
          \<and> end_date \<le> current_date
          \<and> start_date = (year end_date - 3, month end_date,
                           min (day end_date) (days_in_month (year end_date - 3) (month end_date)))
          \<and> (valid_date end_date \<and> \<not> (month end_date = 2 \<and> day end_date = 29) \<longrightarrow>
                start_date = (year end_date - 3, month end_date, day end_date))
          \<and> w = filter (\<lambda>r. start_date \<le> date r \<and> date r \<le> end_date) (merged price_data nav_data)
          \<and> (\<forall>r \<in> set w. date r \<le> current_date \<and> start_date \<le> date r)"
proof -
  let ?e = "actual_end_date price_data nav_data current_date"
  let ?s = "three_year_start_date price_data nav_data current_date"
  let ?w = "window_data price_data nav_data current_date"
  have 1: "?e = Max {date r | r. r \<in> set (merged price_data nav_data) \<and> date r \<le> current_date}"
    by (rule actual_end_date_Max)
  have 2: "?e \<le> current_date"
    using assms by (rule end_le_current)
  have 3: "?s = (year ?e - 3, month ?e, min (day ?e) (days_in_month (year ?e - 3) (month ?e)))"
    by (simp add: three_year_start_date_def minus_years_def)
  have 4: "valid_date ?e \<and> \<not> (month ?e = 2 \<and> day ?e = 29) \<longrightarrow>
             ?s = (year ?e - 3, month ?e, day ?e)"
    unfolding three_year_start_date_def using minus_years_same_day by blast
  have 5: "?w = filter (\<lambda>r. ?s \<le> date r \<and> date r \<le> ?e) (merged price_data nav_data)"
    using assms by (rule window_eq_filter_merged)
  have 6: "\<forall>r \<in> set ?w. date r \<le> current_date \<and> ?s \<le> date r"
    by (auto simp: window_data_def available_data_def)
  show ?thesis
    unfolding Let_def using 1 2 3 4 5 6 by blast
qed

text \<open>
  Claim C6. Every row of the aligned frame has a strictly positive price close and NAV
  close and comes from a price row and a NAV row bearing exactly its date; the aligned
  frame holds exactly the pairs of rows with equal dates and positive closes; and the rows
  used downstream (available rows, window) are rows of the aligned frame.
\<close>

theorem aligned_positive:
  "(\<forall>r \<in> set (merged price_data nav_data).
       0 < close_price r \<and> 0 < close_nav r
     \<and> (\<exists>a \<in> set price_data. \<exists>b \<in> set nav_data.
            date a = date r \<and> date b = date r
          \<and> close a = close_price r \<and> close b = close_nav r))
   \<and> set (merged price_data nav_data) =
       {\<lparr>date = date a, close_price = close a, close_nav = close b\<rparr> | a b.
          a \<in> set price_data \<and> b \<in> set nav_data \<and> date b = date a
        \<and> 0 < close a \<and> 0 < close b}
   \<and> set (window_data price_data nav_data current_date)
       \<subseteq> set (available_data price_data nav_data current_date)
   \<and> set (available_data price_data nav_data current_date) \<subseteq> set (merged price_data nav_data)"
proof -
  have "\<forall>r \<in> set (merged price_data nav_data).
       0 < close_price r \<and> 0 < close_nav r
     \<and> (\<exists>a \<in> set price_data. \<exists>b \<in> set nav_data.
            date a = date r \<and> date b = date r
          \<and> close a = close_price r \<and> close b = close_nav r)"
    unfolding set_merged by fastforce
  moreover have "set (window_data price_data nav_data current_date)
       \<subseteq> set (available_data price_data nav_data current_date)"
    by (auto simp: window_data_def)
  moreover have "set (available_data price_data nav_data current_date)
       \<subseteq> set (merged price_data nav_data)"
    by (auto simp: available_data_def)
  ultimately show ?thesis
    using set_merged by blast
qed

text \<open>
  Claim C10. A returned dict with status \<^verbatim>\<open>insufficient_data\<close> is exactly the three
  entries status, \<^verbatim>\<open>data_points\<close> and \<^verbatim>\<open>required\<close> = 252: it has no z-score, no
  premium/discount statistics and no window bounds. A returned dict with status \<^verbatim>\<open>active\<close>
  has all eleven keys. Every returned dict has one of the two statuses.
\<close>

theorem result_fields:
  assumes "calculate_z_score_3yr price_data nav_data current_date = Some r"
  shows "(map_of r ''status'' = Some (PStr ''insufficient_data'') \<longrightarrow>
            r = [(''status'', PStr ''insufficient_data''),
                 (''data_points'', PInt (int (length (window_data price_data nav_data current_date)))),
                 (''required'', PInt 252)]
          \<and> length (window_data price_data nav_data current_date) < 252
          \<and> map_of r ''z_score'' = None
          \<and> map_of r ''current_pd'' = None \<and> map_of r ''current_pd_pct'' = None
          \<and> map_of r ''avg_pd'' = None \<and> map_of r ''avg_pd_pct'' = None
          \<and> map_of r ''stddev_pd'' = None \<and> map_of r ''stddev_pd_pct'' = None
          \<and> map_of r ''start_date'' = None \<and> map_of r ''end_date'' = None)
       \<and> (map_of r ''status'' = Some (PStr ''active'') \<longrightarrow>
            map fst r = [''z_score'', ''current_pd'', ''current_pd_pct'', ''avg_pd'', ''avg_pd_pct'',
                         ''stddev_pd'', ''stddev_pd_pct'', ''data_points'', ''start_date'',
                         ''end_date'', ''status''])
       \<and> (map_of r ''status'' = Some (PStr ''insufficient_data'')
            \<or> map_of r ''status'' = Some (PStr ''active''))"
proof -
  have av: "available_data price_data nav_data current_date \<noteq> []"
    using assms calc_None_iff by (metis option.distinct(1))
  show ?thesis
    using assms unfolding calc_reached [OF av]
    by (auto simp: insufficient_result_def active_result_def split: if_splits)
qed

text \<open>
  Claim C3 as stated fails when the end date is 29 February: three years before
  2024-02-29 the function starts the window on 2021-02-28, which is not the same day of
  the month.
\<close>

theorem feb29_counterexample:
  "actual_end_date [\<lparr>date = (2024, 2, 29), close = 10\<rparr>] [\<lparr>date = (2024, 2, 29), close = 10\<rparr>]
       (2024, 2, 29) = (2024, 2, 29)
   \<and> three_year_start_date [\<lparr>date = (2024, 2, 29), close = 10\<rparr>]
       [\<lparr>date = (2024, 2, 29), close = 10\<rparr>] (2024, 2, 29) = (2021, 2, 28)
   \<and> three_year_start_date [\<lparr>date = (2024, 2, 29), close = 10\<rparr>]
       [\<lparr>date = (2024, 2, 29), close = 10\<rparr>] (2024, 2, 29) \<noteq> (2024 - 3, 2, 29)"
  by (simp add: three_year_start_date_def actual_end_date_def available_data_def merged_def
        merged_filtered_def pd_merge_def positive_closes_def minus_years_def year_def month_def
        day_def days_in_month_def is_leap_def)

subsection \<open>Order of the inputs\<close>

lemma pd_merge_Cons:
  "pd_merge (a # p) n =
     map (\<lambda>b. \<lparr>date = date a, close_price = close a, close_nav = close b\<rparr>)
         (filter (\<lambda>b. date b = date a) n) @ pd_merge p n"
  by (simp only: pd_merge_def list.map concat.simps)

lemma mset_pd_merge:
  "mset (pd_merge p n) =
     (\<Sum>a \<in># mset p.
        image_mset (\<lambda>b. \<lparr>date = date a, close_price = close a, close_nav = close b\<rparr>)
          (filter_mset (\<lambda>b. date b = date a) (mset n)))"
proof (induction p)
  case Nil
  show ?case by (simp add: pd_merge_Nil_left)
next
  case (Cons a p)
  have "mset (pd_merge (a # p) n) =
      image_mset (\<lambda>b. \<lparr>date = date a, close_price = close a, close_nav = close b\<rparr>)
          (filter_mset (\<lambda>b. date b = date a) (mset n)) + mset (pd_merge p n)"
    unfolding pd_merge_Cons by (simp only: mset_append mset_map mset_filter)
  also have "mset (pd_merge p n) =
      (\<Sum>a \<in># mset p.
        image_mset (\<lambda>b. \<lparr>date = date a, close_price = close a, close_nav = close b\<rparr>)
          (filter_mset (\<lambda>b. date b = date a) (mset n)))"
    by (rule Cons.IH)
  finally show ?case
    by (simp only: mset.simps image_mset_add_mset sum_mset.add_mset)
qed

lemma mset_merged_filtered_cong:
  assumes "mset p' = mset p" and "mset n' = mset n"
  shows "mset (merged_filtered p' n') = mset (merged_filtered p n)"
proof -
  have "mset (pd_merge p' n') = mset (pd_merge p n)"
    by (simp add: mset_pd_merge assms)
  then show ?thesis
    by (simp add: merged_filtered_def)
qed

lemma length_filter_key:
  assumes "distinct (map f xs)"
  shows "length (filter (\<lambda>b. f b = k) xs) = (if k \<in> f ` set xs then 1 else 0)"
  using assms by (induction xs) auto

lemma map_date_pd_merge:
  assumes "distinct (map date n)"
  shows "map date (pd_merge p n) = filter (\<lambda>k. k \<in> date ` set n) (map date p)"
proof (induction p)
  case Nil
  show ?case by (simp add: pd_merge_def)
next
  case (Cons a p)
  have "map date (map (\<lambda>b. \<lparr>date = date a, close_price = close a, close_nav = close b\<rparr>)
                   (filter (\<lambda>b. date b = date a) n))
        = replicate (length (filter (\<lambda>b. date b = date a) n)) (date a)"
    by (simp add: map_replicate_const comp_def)
  also have "\<dots> = (if date a \<in> date ` set n then [date a] else [])"
    by (simp add: length_filter_key [OF assms])
  finally show ?case
    using Cons.IH by (simp add: pd_merge_def)
qed

lemma distinct_pd_merge:
  assumes "distinct (map date p)" and "distinct (map date n)"
  shows "distinct (map date (pd_merge p n))"
  using assms by (simp add: map_date_pd_merge)

lemma distinct_merged_filtered:
  assumes "distinct (map date p)" and "distinct (map date n)"
  shows "distinct (map date (merged_filtered p n))"
  unfolding merged_filtered_def
  using distinct_pd_merge [OF assms] by (rule distinct_map_filter)

lemma filter_key_singleton:
  assumes "distinct (map f xs)" and "k \<in> set xs"
  shows "filter (\<lambda>x. f k = f x) xs = [k]"
  using assms by (induction xs) (auto simp: filter_empty_conv image_iff)

lemma sort_key_unique:
  assumes "mset ys = mset xs" and "distinct (map f xs)"
  shows "sort_key f ys = sort_key f xs"
proof (rule properties_for_sort_key)
  show "mset (sort_key f xs) = mset ys"
    using assms(1) by simp
  show "sorted (map f (sort_key f xs))"
    by simp
  fix k assume k: "k \<in> set (sort_key f xs)"
  have m1: "mset (map f (sort_key f xs)) = mset (map f xs)"
    by simp
  have d1: "distinct (map f (sort_key f xs))"
    using mset_eq_imp_distinct_iff [OF m1] assms(2) by simp
  have m2: "mset (map f ys) = mset (map f xs)"
    using assms(1) by simp
  have d2: "distinct (map f ys)"
    using mset_eq_imp_distinct_iff [OF m2] assms(2) by simp
  have "k \<in> set ys"
    using k mset_eq_setD [OF assms(1)] by simp
  then have "filter (\<lambda>x. f k = f x) ys = [k]"
    using d2 by (intro filter_key_singleton)
  moreover have "filter (\<lambda>x. f k = f x) (sort_key f xs) = [k]"
    using d1 k by (intro filter_key_singleton)
  ultimately show "filter (\<lambda>x. f k = f x) (sort_key f xs) = filter (\<lambda>x. f k = f x) ys"
    by simp
qed

text \<open>
  Claim C7. When the dates are distinct within each input series, the aligned frame is
  sorted ascending by date, its dates are distinct, and any permutation of either input
  gives the same aligned frame.
\<close>

theorem alignment_order_insensitive:
  assumes "distinct (map date price_data)" and "distinct (map date nav_data)"
  shows "sorted (map date (merged price_data nav_data))
       \<and> distinct (map date (merged price_data nav_data))
       \<and> (\<forall>price_data' nav_data'.
             mset price_data' = mset price_data \<and> mset nav_data' = mset nav_data \<longrightarrow>
               merged price_data' nav_data' = merged price_data nav_data)"
proof (intro conjI allI impI)
  show "sorted (map date (merged price_data nav_data))"
    by (rule sorted_merged)
  have m: "mset (map date (merged price_data nav_data))
      = mset (map date (merged_filtered price_data nav_data))"
    by (simp add: merged_def)
  show "distinct (map date (merged price_data nav_data))"
    using mset_eq_imp_distinct_iff [OF m] distinct_merged_filtered [OF assms] by simp
next
  fix price_data' nav_data'
  assume perm: "mset price_data' = mset price_data \<and> mset nav_data' = mset nav_data"
  have "mset (merged_filtered price_data' nav_data') = mset (merged_filtered price_data nav_data)"
    using perm by (intro mset_merged_filtered_cong) simp_all
  then show "merged price_data' nav_data' = merged price_data nav_data"
    unfolding merged_def
    using distinct_merged_filtered [OF assms] by (rule sort_key_unique)
qed

subsection \<open>The degenerate branch over any float arithmetic\<close>

lemma calc_fp_reached:
  assumes "available_data p n d \<noteq> []"
  shows "calculate_z_score_3yr_fp ops p n d =
     (if length (window_data p n d) < 252 then Some (insufficient_result_fp (window_data p n d))
      else if feq_zero ops (stddev_pd_fp ops (window_data p n d))
        then Some (active_result_fp ops (fl_const ops 0) (window_data p n d)
                     (three_year_start_date p n d) (actual_end_date p n d))
      else Some (active_result_fp ops
                   (fdiv ops (fsub ops (current_pd_fp ops (window_data p n d))
                                       (avg_pd_fp ops (window_data p n d)))
                             (stddev_pd_fp ops (window_data p n d)))
                   (window_data p n d) (three_year_start_date p n d) (actual_end_date p n d)))"
  using available_nonempty [OF assms] assms
  by (simp add: calculate_z_score_3yr_fp_def Let_def)


lemma exact_ops_fields:
  "fl_const exact_ops x = Some x"
  "fl_of_int exact_ops i = Some (real_of_int i)"
  "fsub exact_ops a b = lift2 (-) a b"
  "fmul exact_ops a b = lift2 (*) a b"
  "fdiv exact_ops a b = exact_div a b"
  "fsquare exact_ops a = map_option (\<lambda>x. x\<^sup>2) a"
  "fsqrt exact_ops a = exact_sqrt a"
  "fsum exact_ops xs = exact_sum xs"
  "fmean exact_ops xs = exact_div (exact_sum xs) (Some (real (length xs)))"
  "feq_zero exact_ops a = (a = Some 0)"
  by (simp_all add: exact_ops_def)

lemma lift2_Some: "lift2 f (Some x) (Some y) = Some (f x y)"
  by (simp add: lift2_def)

lemma exact_div_Some: "y \<noteq> 0 \<Longrightarrow> exact_div (Some x) (Some y) = Some (x / y)"
  by (simp add: exact_div_def)

lemma exact_sum_Some: "exact_sum (map Some xs) = Some (sum_list xs)"
  by (induction xs) (simp_all add: exact_sum_def lift2_def)

lemma prem_disc_exact:
  assumes "\<forall>r \<in> set w. close_nav r \<noteq> 0"
  shows "prem_disc_fp exact_ops w = map Some (prem_disc w)"
  using assms
  by (simp add: prem_disc_fp_def prem_disc_def exact_ops_fields exact_div_def lift2_def)

lemma stats_exact:
  assumes nav: "\<forall>r \<in> set w. close_nav r \<noteq> 0" and ne: "w \<noteq> []"
  shows "current_pd_fp exact_ops w = Some (current_pd w)"
    and "avg_pd_fp exact_ops w = Some (avg_pd w)"
    and "variance_fp exact_ops w = Some (variance w)"
    and "stddev_pd_fp exact_ops w = Some (stddev_pd w)"
proof -
  have pd: "prem_disc_fp exact_ops w = map Some (prem_disc w)"
    using nav by (rule prem_disc_exact)
  have pne: "prem_disc w \<noteq> []"
    using ne by (simp add: prem_disc_def)
  show "current_pd_fp exact_ops w = Some (current_pd w)"
    using pne by (simp add: current_pd_fp_def current_pd_def pd last_map)
  show avg: "avg_pd_fp exact_ops w = Some (avg_pd w)"
    using pne by (simp add: avg_pd_fp_def avg_pd_def pd exact_ops_fields exact_sum_Some exact_div_def)
  have sq: "map (\<lambda>x. fsquare exact_ops (fsub exact_ops x (avg_pd_fp exact_ops w)))
                (prem_disc_fp exact_ops w)
      = map Some (map (\<lambda>x. (x - avg_pd w)\<^sup>2) (prem_disc w))"
    by (simp add: pd avg exact_ops_fields lift2_Some comp_def)
  have len: "real_of_int (int (length w)) \<noteq> 0"
    using ne by simp
  have "variance_fp exact_ops w =
      exact_div (exact_sum (map Some (map (\<lambda>x. (x - avg_pd w)\<^sup>2) (prem_disc w))))
                (Some (real_of_int (int (length w))))"
    unfolding variance_fp_def sq by (simp only: exact_ops_fields)
  also have "\<dots> = exact_div (Some (sum_list (map (\<lambda>x. (x - avg_pd w)\<^sup>2) (prem_disc w))))
                (Some (real_of_int (int (length w))))"
    by (simp only: exact_sum_Some)
  also have "\<dots> = Some (sum_list (map (\<lambda>x. (x - avg_pd w)\<^sup>2) (prem_disc w))
                      / real_of_int (int (length w)))"
    using len by (rule exact_div_Some)
  also have "\<dots> = Some (variance w)"
    by (simp add: variance_def)
  finally show var: "variance_fp exact_ops w = Some (variance w)" .
  show "stddev_pd_fp exact_ops w = Some (stddev_pd w)"
    using variance_nonneg [of w]
    by (simp add: stddev_pd_fp_def stddev_pd_def var exact_ops_fields exact_sqrt_def)
qed

lemma exact_degenerate_iff:
  assumes nav: "\<forall>r \<in> set w. close_nav r \<noteq> 0" and ne: "w \<noteq> []"
  shows "feq_zero exact_ops (stddev_pd_fp exact_ops w) \<longleftrightarrow>
           (\<forall>x \<in> set (prem_disc w). x = current_pd w)"
proof -
  have "feq_zero exact_ops (stddev_pd_fp exact_ops w) \<longleftrightarrow> stddev_pd w = 0"
    by (simp add: stats_exact(4) [OF nav ne] exact_ops_fields)
  also have "\<dots> \<longleftrightarrow> (\<forall>x \<in> set (prem_disc w). x = current_pd w)"
  proof
    assume "stddev_pd w = 0"
    then have all: "\<forall>x \<in> set (prem_disc w). x = avg_pd w"
      using ne by (simp add: stddev_zero_iff)
    then have "current_pd w = avg_pd w"
      using current_pd_in_set [OF ne] by blast
    with all show "\<forall>x \<in> set (prem_disc w). x = current_pd w" by simp
  next
    assume "\<forall>x \<in> set (prem_disc w). x = current_pd w"
    with ne show "stddev_pd w = 0" by (rule stddev_zero_if_constant)
  qed
  finally show ?thesis .
qed

lemma window_nav_pos:
  assumes "r \<in> set (window_data p n d)"
  shows "0 < close_nav r"
proof -
  have "r \<in> set (merged p n)"
    using assms by (simp add: window_data_def available_data_def)
  then show ?thesis
    unfolding set_merged by auto
qed

lemma exact_ops_refines:
  "calculate_z_score_3yr_fp exact_ops p n d = map_option lift_dict (calculate_z_score_3yr p n d)"
proof (cases "available_data p n d = []")
  case True
  then show ?thesis
    by (simp add: calculate_z_score_3yr_fp_def calculate_z_score_3yr_def)
next
  case av: False
  show ?thesis
  proof (cases "length (window_data p n d) < 252")
    case True
    then show ?thesis
      by (simp add: calc_reached [OF av] calc_fp_reached [OF av] insufficient_result_def
            insufficient_result_fp_def lift_dict_def lift_val_def)
  next
    case False
    let ?w = "window_data p n d"
    have ne: "?w \<noteq> []" using False by auto
    have nav: "\<forall>r \<in> set ?w. close_nav r \<noteq> 0"
      using window_nav_pos by fastforce
    note st = stats_exact [OF nav ne]
    have act: "active_result_fp exact_ops (Some z) ?w s e = lift_dict (active_result z ?w s e)"
      for z s e
      by (simp add: active_result_fp_def active_result_def lift_dict_def lift_val_def st
            exact_ops_fields lift2_Some)
    show ?thesis
    proof (cases "stddev_pd ?w = 0")
      case True
      then show ?thesis
        using False
        by (simp add: calc_reached [OF av] calc_fp_reached [OF av] st exact_ops_fields
              act [symmetric])
    next
      case sd: False
      have "fdiv exact_ops (fsub exact_ops (current_pd_fp exact_ops ?w) (avg_pd_fp exact_ops ?w))
              (stddev_pd_fp exact_ops ?w) = Some ((current_pd ?w - avg_pd ?w) / stddev_pd ?w)"
        using sd by (simp add: st exact_ops_fields lift2_Some exact_div_Some)
      then show ?thesis
        using False sd
        by (simp add: calc_reached [OF av] calc_fp_reached [OF av] st exact_ops_fields
              act [symmetric])
    qed
  qed
qed


subsection \<open>Evaluating the example series\<close>

lemma filter_eq_upt: "i < k \<Longrightarrow> filter (\<lambda>j. j = i) [0..<k] = [i]"
  by (induction k) (auto simp: filter_empty_conv)

lemma pd_merge_map:
  "pd_merge (map (\<lambda>i. \<lparr>date = dt i, close = f i\<rparr>) xs) n =
     concat (map (\<lambda>i. map (\<lambda>b. \<lparr>date = dt i, close_price = f i, close_nav = close b\<rparr>)
                          (filter (\<lambda>b. date b = dt i) n)) xs)"
  by (induction xs) (simp_all only: list.map pd_merge_Cons pd_merge_Nil_left concat.simps
        dated.simps price_point.simps)

lemma filter_series_date:
  assumes inj: "\<And>j. j < k \<Longrightarrow> (dt j = dt i) = (j = i)" and i: "i < k"
  shows "filter (\<lambda>b. date b = dt i) (series dt g k) = [\<lparr>date = dt i, close = g i\<rparr>]"
proof -
  have "filter (\<lambda>j. dt j = dt i) [0..<k] = filter (\<lambda>j. j = i) [0..<k]"
    by (rule filter_cong) (auto simp: inj)
  then have "filter (\<lambda>j. dt j = dt i) [0..<k] = [i]"
    using i by (simp only: filter_eq_upt)
  moreover have "filter (\<lambda>b. date b = dt i) (series dt g k) =
      map (\<lambda>i. \<lparr>date = dt i, close = g i\<rparr>) (filter (\<lambda>j. dt j = dt i) [0..<k])"
    unfolding series_def filter_map by (simp only: comp_def dated.simps)
  ultimately show ?thesis by (simp only: list.map)
qed

lemma pd_merge_series:
  assumes inc: "\<And>i j. i < j \<Longrightarrow> j < k \<Longrightarrow> dt i < dt j"
  shows "pd_merge (series dt f k) (series dt g k) = aligned_series dt f g k"
proof -
  have inj: "(dt j = dt i) = (j = i)" if "i < k" "j < k" for i j
    using inc [of i j] inc [of j i] that
    by (cases i j rule: linorder_cases) auto
  have "concat (map (\<lambda>i. map (\<lambda>b. \<lparr>date = dt i, close_price = f i, close_nav = close b\<rparr>)
                          (filter (\<lambda>b. date b = dt i) (series dt g k))) [0..<k])
      = concat (map (\<lambda>i. [\<lparr>date = dt i, close_price = f i, close_nav = g i\<rparr>]) [0..<k])"
  proof (rule arg_cong [where f = concat], rule map_cong [OF refl])
    fix i assume "i \<in> set [0..<k]"
    then have i: "i < k" by simp
    have "filter (\<lambda>b. date b = dt i) (series dt g k) = [\<lparr>date = dt i, close = g i\<rparr>]"
      using inj [OF i] i by (intro filter_series_date) auto
    then show "map (\<lambda>b. \<lparr>date = dt i, close_price = f i, close_nav = close b\<rparr>)
                 (filter (\<lambda>b. date b = dt i) (series dt g k))
             = [\<lparr>date = dt i, close_price = f i, close_nav = g i\<rparr>]"
      by (simp only: list.map price_point.simps)
  qed
  also have "\<dots> = aligned_series dt f g k"
    unfolding aligned_series_def by (rule concat_map_singleton)
  finally show ?thesis
    unfolding series_def [of dt f] pd_merge_map .
qed

lemma set_aligned_series:
  "r \<in> set (aligned_series dt f g k) \<longleftrightarrow>
     (\<exists>i<k. r = \<lparr>date = dt i, close_price = f i, close_nav = g i\<rparr>)"
  unfolding aligned_series_def by auto

lemma sorted_aligned_series:
  assumes inc: "\<And>i j. i < j \<Longrightarrow> j < k \<Longrightarrow> dt i < dt j"
  shows "sorted (map date (aligned_series dt f g k))"
proof -
  have "sorted_wrt (\<lambda>i j. dt i \<le> dt j) [0..<k]"
    unfolding sorted_wrt_iff_nth_less using inc by (auto intro: less_imp_le)
  moreover have "map date (aligned_series dt f g k) = map dt [0..<k]"
    unfolding aligned_series_def by simp
  ultimately show ?thesis
    by (simp only: sorted_wrt_map)
qed

lemma merged_series:
  assumes inc: "\<And>i j. i < j \<Longrightarrow> j < k \<Longrightarrow> dt i < dt j"
    and pos: "\<And>i. i < k \<Longrightarrow> 0 < f i \<and> 0 < g i"
  shows "merged (series dt f k) (series dt g k) = aligned_series dt f g k"
proof -
  have pm: "pd_merge (series dt f k) (series dt g k) = aligned_series dt f g k"
    using inc by (rule pd_merge_series)
  have "filter positive_closes (aligned_series dt f g k) = aligned_series dt f g k"
    by (rule filter_True) (auto simp: set_aligned_series positive_closes_def pos)
  then have "merged_filtered (series dt f k) (series dt g k) = aligned_series dt f g k"
    unfolding merged_filtered_def pm .
  then show ?thesis
    unfolding merged_def using sorted_aligned_series [OF inc]
    by (simp only: sort_key_id_if_sorted)
qed

lemma window_series:
  assumes inc: "\<And>i j. i < j \<Longrightarrow> j < k \<Longrightarrow> dt i < dt j"
    and pos: "\<And>i. i < k \<Longrightarrow> 0 < f i \<and> 0 < g i"
    and k: "0 < k"
    and asof: "dt (k - 1) \<le> d"
    and start: "minus_years (dt (k - 1)) 3 \<le> dt 0"
  shows "available_data (series dt f k) (series dt g k) d = aligned_series dt f g k
       \<and> actual_end_date (series dt f k) (series dt g k) d = dt (k - 1)
       \<and> window_data (series dt f k) (series dt g k) d = aligned_series dt f g k"
proof -
  have m: "merged (series dt f k) (series dt g k) = aligned_series dt f g k"
    using inc pos by (rule merged_series)
  have le: "dt i \<le> dt j" if "i \<le> j" "j < k" for i j
    using inc [of i j] that by (cases "i = j") auto
  have hi: "dt i \<le> dt (k - 1)" if "i < k" for i
    using that by (intro le) auto
  have lo: "dt 0 \<le> dt i" if "i < k" for i
    using that by (intro le) auto
  have "filter (\<lambda>r. date r \<le> d) (aligned_series dt f g k) = aligned_series dt f g k"
  proof (rule filter_True, rule ballI)
    fix r assume "r \<in> set (aligned_series dt f g k)"
    then obtain i where "i < k" "date r = dt i"
      unfolding set_aligned_series by auto
    then show "date r \<le> d"
      using hi [of i] asof by simp
  qed
  then have av: "available_data (series dt f k) (series dt g k) d = aligned_series dt f g k"
    unfolding available_data_def m .
  have img: "set (map date (aligned_series dt f g k)) = dt ` {0..<k}"
    unfolding aligned_series_def by (simp add: image_image)
  have "Max (dt ` {0..<k}) = dt (k - 1)"
  proof (rule Max_eqI)
    show "finite (dt ` {0..<k})" by simp
    show "dt (k - 1) \<in> dt ` {0..<k}" using k by auto
    fix y assume "y \<in> dt ` {0..<k}"
    then obtain i where "i < k" "y = dt i" by auto
    then show "y \<le> dt (k - 1)" using hi by simp
  qed
  then have e: "actual_end_date (series dt f k) (series dt g k) d = dt (k - 1)"
    unfolding actual_end_date_def av img .
  have "filter (\<lambda>r. minus_years (dt (k - 1)) 3 \<le> date r \<and> date r \<le> dt (k - 1))
          (aligned_series dt f g k) = aligned_series dt f g k"
  proof (rule filter_True, rule ballI)
    fix r assume "r \<in> set (aligned_series dt f g k)"
    then obtain i where i: "i < k" "date r = dt i"
      unfolding set_aligned_series by auto
    have "minus_years (dt (k - 1)) 3 \<le> dt i"
      using start lo [OF i(1)] by (rule order_trans)
    then show "minus_years (dt (k - 1)) 3 \<le> date r \<and> date r \<le> dt (k - 1)"
      using hi [OF i(1)] i(2) by simp
  qed
  then have w: "window_data (series dt f k) (series dt g k) d = aligned_series dt f g k"
    unfolding window_data_def three_year_start_date_def e av .
  show ?thesis using av e w by simp
qed

lemma length_aligned_series: "length (aligned_series dt f g k) = k"
  by (simp add: aligned_series_def)

lemma prem_disc_series:
  "prem_disc (aligned_series dt f g k) = map (\<lambda>i. f i / g i - 1) [0..<k]"
  by (simp add: prem_disc_def aligned_series_def comp_def)

lemma div_mod_lex:
  fixes i j m :: nat
  assumes "i < j"
  shows "i div m < j div m \<or> (i div m = j div m \<and> i mod m < j mod m)"
proof (cases "i div m = j div m")
  case True
  have "m * (i div m) + i mod m < m * (j div m) + j mod m"
    using assms by (simp only: mult_div_mod_eq)
  then have "i mod m < j mod m"
    unfolding True by (rule add_less_imp_less_left)
  with True show ?thesis by simp
next
  case False
  have "i div m \<le> j div m"
    using assms by (intro div_le_mono) simp
  with False show ?thesis by simp
qed

lemma day_of_2023_inc: "i < j \<Longrightarrow> day_of_2023 i < day_of_2023 j"
  using div_mod_lex [of i j 28] by (auto simp: day_of_2023_def)

lemma sum_list_two_level:
  fixes F :: "real \<Rightarrow> real"
  shows "sum_list (map (\<lambda>i. F (if i < m then a else b)) [0..<m + n]) = real m * F a + real n * F b"
proof -
  have 1: "map (\<lambda>i. F (if i < m then a else b)) [0..<m] = map (\<lambda>i. F a) [0..<m]"
    by (rule map_cong) auto
  have 2: "map (\<lambda>i. F (if i < m then a else b)) [m..<m + n] = map (\<lambda>i. F b) [m..<m + n]"
    by (rule map_cong) auto
  have "[0..<m + n] = [0..<m] @ [m..<m + n]"
    using upt_add_eq_append [of 0 m n] by simp
  then have "sum_list (map (\<lambda>i. F (if i < m then a else b)) [0..<m + n])
      = sum_list (map (\<lambda>i. F a) [0..<m]) + sum_list (map (\<lambda>i. F b) [m..<m + n])"
    by (simp only: map_append sum_list_append 1 2)
  then show ?thesis
    by (simp add: sum_list_triv)
qed

lemma ex_window:
  "available_data ex_price ex_nav as_of = aligned_series day_of_2023 two_level (\<lambda>i. 10) 252
 \<and> actual_end_date ex_price ex_nav as_of = (2023, 9, 28)
 \<and> window_data ex_price ex_nav as_of = aligned_series day_of_2023 two_level (\<lambda>i. 10) 252"
proof -
  have "available_data (series day_of_2023 two_level 252) (series day_of_2023 (\<lambda>i. 10) 252) as_of
          = aligned_series day_of_2023 two_level (\<lambda>i. 10) 252
      \<and> actual_end_date (series day_of_2023 two_level 252) (series day_of_2023 (\<lambda>i. 10) 252) as_of
          = day_of_2023 (252 - 1)
      \<and> window_data (series day_of_2023 two_level 252) (series day_of_2023 (\<lambda>i. 10) 252) as_of
          = aligned_series day_of_2023 two_level (\<lambda>i. 10) 252"
  proof (rule window_series)
    show "day_of_2023 i < day_of_2023 j" if "i < j" for i j
      using that by (rule day_of_2023_inc)
    show "0 < two_level i \<and> (0::real) < 10" for i
      by (simp add: two_level_def)
    show "(0::nat) < 252" by simp
    show "day_of_2023 (252 - 1) \<le> as_of"
      by (simp add: day_of_2023_def as_of_def)
    show "minus_years (day_of_2023 (252 - 1)) 3 \<le> day_of_2023 0"
      by (simp add: day_of_2023_def minus_years_def year_def month_def day_def)
  qed
  moreover have "day_of_2023 (252 - 1) = (2023, 9, 28)"
    by (simp add: day_of_2023_def)
  ultimately show ?thesis
    by (simp only: ex_price_def ex_nav_def)
qed

lemma ex_stats:
  "avg_pd (aligned_series day_of_2023 two_level (\<lambda>i. 10) 252) = 1 / 2"
  "stddev_pd (aligned_series day_of_2023 two_level (\<lambda>i. 10) 252) = 1 / 2"
  "current_pd (aligned_series day_of_2023 two_level (\<lambda>i. 10) 252) = 1"
proof -
  let ?w = "aligned_series day_of_2023 two_level (\<lambda>i. 10) 252"
  have pd: "prem_disc ?w = map (\<lambda>i. (if i < 126 then 10 else 20) / 10 - 1) [0..<126 + 126]"
    by (simp add: prem_disc_series two_level_def)
  have "sum_list (prem_disc ?w) = 126"
    unfolding pd using sum_list_two_level [of "\<lambda>c. c / 10 - 1" 126 10 20 126] by simp
  then show avg: "avg_pd ?w = 1 / 2"
    by (simp add: avg_pd_def pd)
  have "sum_list (map (\<lambda>x. (x - 1 / 2)\<^sup>2) (prem_disc ?w)) = 63"
    unfolding pd map_map comp_def
    using sum_list_two_level [of "\<lambda>c. (c / 10 - 1 - 1 / 2)\<^sup>2" 126 10 20 126]
    by (simp add: power2_eq_square)
  then have v: "variance ?w = (1 / 2)\<^sup>2"
    by (simp add: variance_def avg length_aligned_series power2_eq_square)
  have s: "sqrt ((1 / 2)\<^sup>2) = (1 / 2 :: real)"
    unfolding real_sqrt_abs by simp
  show "stddev_pd ?w = 1 / 2"
    unfolding stddev_pd_def v by (rule s)
  show "current_pd ?w = 1"
    by (simp add: current_pd_def pd last_map)
qed

lemma ex_small_merged:
  "merged ex_small_price ex_small_nav =
     [\<lparr>date = (2021, 2, 27), close_price = 10, close_nav = 10\<rparr>,
      \<lparr>date = (2021, 2, 28), close_price = 9, close_nav = 10\<rparr>,
      \<lparr>date = (2023, 6, 15), close_price = 10, close_nav = 10\<rparr>,
      \<lparr>date = (2024, 2, 29), close_price = 11, close_nav = 10\<rparr>,
      \<lparr>date = (2024, 3, 5), close_price = 10, close_nav = 10\<rparr>]"
  by (simp add: ex_small_price_def ex_small_nav_def pd_merge_def positive_closes_def
        merged_filtered_def merged_def)

lemma ex_small_leap:
  "available_data ex_small_price ex_small_nav (2024, 3, 4) =
     [\<lparr>date = (2021, 2, 27), close_price = 10, close_nav = 10\<rparr>,
      \<lparr>date = (2021, 2, 28), close_price = 9, close_nav = 10\<rparr>,
      \<lparr>date = (2023, 6, 15), close_price = 10, close_nav = 10\<rparr>,
      \<lparr>date = (2024, 2, 29), close_price = 11, close_nav = 10\<rparr>]"
  "actual_end_date ex_small_price ex_small_nav (2024, 3, 4) = (2024, 2, 29)"
  "three_year_start_date ex_small_price ex_small_nav (2024, 3, 4) = (2021, 2, 28)"
  "window_data ex_small_price ex_small_nav (2024, 3, 4) =
     [\<lparr>date = (2021, 2, 28), close_price = 9, close_nav = 10\<rparr>,
      \<lparr>date = (2023, 6, 15), close_price = 10, close_nav = 10\<rparr>,
      \<lparr>date = (2024, 2, 29), close_price = 11, close_nav = 10\<rparr>]"
  by (simp_all add: ex_small_merged available_data_def actual_end_date_def
        three_year_start_date_def window_data_def minus_years_def
        year_def month_def day_def days_in_month_def is_leap_def)

lemma ex_small_plain:
  "available_data ex_small_price ex_small_nav (2023, 12, 31) =
     [\<lparr>date = (2021, 2, 27), close_price = 10, close_nav = 10\<rparr>,
      \<lparr>date = (2021, 2, 28), close_price = 9, close_nav = 10\<rparr>,
      \<lparr>date = (2023, 6, 15), close_price = 10, close_nav = 10\<rparr>]"
  "actual_end_date ex_small_price ex_small_nav (2023, 12, 31) = (2023, 6, 15)"
  "three_year_start_date ex_small_price ex_small_nav (2023, 12, 31) = (2020, 6, 15)"
  "window_data ex_small_price ex_small_nav (2023, 12, 31) =
     [\<lparr>date = (2021, 2, 27), close_price = 10, close_nav = 10\<rparr>,
      \<lparr>date = (2021, 2, 28), close_price = 9, close_nav = 10\<rparr>,
      \<lparr>date = (2023, 6, 15), close_price = 10, close_nav = 10\<rparr>]"
  by (simp_all add: ex_small_merged available_data_def actual_end_date_def
        three_year_start_date_def window_data_def minus_years_def
        year_def month_def day_def days_in_month_def is_leap_def)

lemma ex_bad_merged:
  "merged ex_bad_price ex_bad_nav = [\<lparr>date = (2024, 1, 2), close_price = 10, close_nav = 9\<rparr>]"
  by (simp add: ex_bad_price_def ex_bad_nav_def pd_merge_def positive_closes_def
        merged_filtered_def merged_def)





subsection \<open>The theorems on concrete inputs\<close>

text \<open>
  Claim C1, on a concrete input: 252 rows, the first 126 at premium 0 and the last 126 at
  premium 1. The population formula gives 1/2, and that is what the function returns.
\<close>

theorem population_convention_witness:
  "252 \<le> length (window_data ex_price ex_nav as_of)
   \<and> population_stddev_spec (prem_disc (window_data ex_price ex_nav as_of)) = 1 / 2
   \<and> (\<exists>r. calculate_z_score_3yr ex_price ex_nav as_of = Some r
          \<and> map_of r ''stddev_pd'' = Some (PFloat (1 / 2))
          \<and> map_of r ''data_points'' = Some (PInt 252))"
proof -
  have len: "252 \<le> length (window_data ex_price ex_nav as_of)"
    by (simp add: ex_window length_aligned_series)
  have sd: "population_stddev_spec (prem_disc (window_data ex_price ex_nav as_of)) = 1 / 2"
    using ex_stats(2) by (simp add: ex_window stddev_pd_spec)
  from population_convention [OF len] obtain r where
    r: "calculate_z_score_3yr ex_price ex_nav as_of = Some r"
    and s: "map_of r ''stddev_pd'' =
              Some (PFloat (population_stddev_spec (prem_disc (window_data ex_price ex_nav as_of))))"
    and n: "map_of r ''data_points'' =
              Some (PInt (int (length (prem_disc (window_data ex_price ex_nav as_of)))))"
    by blast
  have s': "map_of r ''stddev_pd'' = Some (PFloat (1 / 2))"
    using s unfolding sd .
  have "length (prem_disc (window_data ex_price ex_nav as_of)) = 252"
    by (simp add: ex_window prem_disc_series)
  then have n': "map_of r ''data_points'' = Some (PInt 252)"
    using n by simp
  show ?thesis
    using len sd r s' n' by blast
qed

text \<open>
  Claim C2, on the 252-row input with premiums 0 and 1: mean 1/2, standard deviation 1/2,
  current premium 1, z-score 1.
\<close>

theorem z_score_formula_witness:
  "252 \<le> length (window_data ex_price ex_nav as_of)
   \<and> stddev_pd (window_data ex_price ex_nav as_of) \<noteq> 0
   \<and> (\<exists>r. calculate_z_score_3yr ex_price ex_nav as_of = Some r
          \<and> date (last (window_data ex_price ex_nav as_of)) = (2023, 9, 28)
          \<and> map_of r ''current_pd'' = Some (PFloat 1)
          \<and> map_of r ''avg_pd'' = Some (PFloat (1 / 2))
          \<and> map_of r ''stddev_pd'' = Some (PFloat (1 / 2))
          \<and> map_of r ''z_score'' = Some (PFloat 1))"
proof -
  have len: "252 \<le> length (window_data ex_price ex_nav as_of)"
    by (simp add: ex_window length_aligned_series)
  have sd: "stddev_pd (window_data ex_price ex_nav as_of) \<noteq> 0"
    by (simp add: ex_window ex_stats)
  note th = z_score_formula [OF len sd, unfolded Let_def]
  have e: "date (last (window_data ex_price ex_nav as_of)) = actual_end_date ex_price ex_nav as_of"
    by (rule th [THEN conjunct2, THEN conjunct1])
  obtain r where r: "calculate_z_score_3yr ex_price ex_nav as_of = Some r"
    using th by blast
  have "calculate_z_score_3yr ex_price ex_nav as_of =
      Some (active_result 1 (window_data ex_price ex_nav as_of)
              (three_year_start_date ex_price ex_nav as_of) (actual_end_date ex_price ex_nav as_of))"
    using len sd by (simp add: calc_reached [OF accepted_reached [OF len]] ex_window ex_stats)
  with r have "r = active_result 1 (window_data ex_price ex_nav as_of)
              (three_year_start_date ex_price ex_nav as_of) (actual_end_date ex_price ex_nav as_of)"
    by simp
  then show ?thesis
    using len sd r e by (simp add: active_result_def ex_window ex_stats)
qed

text \<open>
  Claim C3, on a concrete input: with the as-of date 2024-03-04 the window ends on
  2024-02-29 and starts on 2021-02-28, leaving out the rows of 2021-02-27 and 2024-03-05;
  with the as-of date 2023-12-31 it ends on 2023-06-15 and starts on 2020-06-15.
\<close>

theorem window_selection_witness:
  "available_data ex_small_price ex_small_nav (2024, 3, 4) \<noteq> []
   \<and> actual_end_date ex_small_price ex_small_nav (2024, 3, 4) = (2024, 2, 29)
   \<and> three_year_start_date ex_small_price ex_small_nav (2024, 3, 4) = (2021, 2, 28)
   \<and> map date (window_data ex_small_price ex_small_nav (2024, 3, 4)) =
         [(2021, 2, 28), (2023, 6, 15), (2024, 2, 29)]
   \<and> window_data ex_small_price ex_small_nav (2024, 3, 4) =
         filter (\<lambda>r. (2021, 2, 28) \<le> date r \<and> date r \<le> (2024, 2, 29))
                (merged ex_small_price ex_small_nav)
   \<and> available_data ex_small_price ex_small_nav (2023, 12, 31) \<noteq> []
   \<and> valid_date (actual_end_date ex_small_price ex_small_nav (2023, 12, 31))
   \<and> actual_end_date ex_small_price ex_small_nav (2023, 12, 31) = (2023, 6, 15)
   \<and> three_year_start_date ex_small_price ex_small_nav (2023, 12, 31) = (2020, 6, 15)
   \<and> three_year_start_date ex_small_price ex_small_nav (2023, 12, 31) =
         (year (actual_end_date ex_small_price ex_small_nav (2023, 12, 31)) - 3,
          month (actual_end_date ex_small_price ex_small_nav (2023, 12, 31)),
          day (actual_end_date ex_small_price ex_small_nav (2023, 12, 31)))
   \<and> map date (window_data ex_small_price ex_small_nav (2023, 12, 31)) =
         [(2021, 2, 27), (2021, 2, 28), (2023, 6, 15)]"
proof -
  let ?e = "actual_end_date ex_small_price ex_small_nav (2023, 12, 31)"
  have a1: "available_data ex_small_price ex_small_nav (2024, 3, 4) \<noteq> []"
    by (simp add: ex_small_leap)
  have a2: "available_data ex_small_price ex_small_nav (2023, 12, 31) \<noteq> []"
    by (simp add: ex_small_plain)
  have v: "valid_date ?e"
    by (simp add: ex_small_plain valid_date_def year_def month_def day_def days_in_month_def)
  have nf: "\<not> (month ?e = 2 \<and> day ?e = 29)"
    by (simp add: ex_small_plain month_def day_def)
  have w1: "window_data ex_small_price ex_small_nav (2024, 3, 4) =
         filter (\<lambda>r. three_year_start_date ex_small_price ex_small_nav (2024, 3, 4) \<le> date r
                     \<and> date r \<le> actual_end_date ex_small_price ex_small_nav (2024, 3, 4))
                (merged ex_small_price ex_small_nav)"
    using window_selection [OF a1] unfolding Let_def by blast
  have w1': "window_data ex_small_price ex_small_nav (2024, 3, 4) =
         filter (\<lambda>r. (2021, 2, 28) \<le> date r \<and> date r \<le> (2024, 2, 29))
                (merged ex_small_price ex_small_nav)"
    using w1 unfolding ex_small_leap(2,3) .
  have s2: "three_year_start_date ex_small_price ex_small_nav (2023, 12, 31) =
         (year ?e - 3, month ?e, day ?e)"
    using window_selection [OF a2] v nf unfolding Let_def by blast
  have d1: "map date (window_data ex_small_price ex_small_nav (2024, 3, 4)) =
         [(2021, 2, 28), (2023, 6, 15), (2024, 2, 29)]"
    by (simp add: ex_small_leap)
  have d2: "map date (window_data ex_small_price ex_small_nav (2023, 12, 31)) =
         [(2021, 2, 27), (2021, 2, 28), (2023, 6, 15)]"
    by (simp add: ex_small_plain)
  show ?thesis
    using a1 a2 v w1' s2 d1 d2 ex_small_leap(2,3) ex_small_plain(2,3) by blast
qed

text \<open>
  Claim C4, on concrete inputs: a window of 3 rows is insufficient, a window of exactly
  252 rows is active.
\<close>

theorem threshold_policy_witness:
  "available_data ex_small_price ex_small_nav (2024, 3, 4) \<noteq> []
   \<and> length (window_data ex_small_price ex_small_nav (2024, 3, 4)) < 252
   \<and> calculate_z_score_3yr ex_small_price ex_small_nav (2024, 3, 4) =
        Some [(''status'', PStr ''insufficient_data''), (''data_points'', PInt 3),
              (''required'', PInt 252)]
   \<and> available_data ex_price ex_nav as_of \<noteq> []
   \<and> length (window_data ex_price ex_nav as_of) = 252
   \<and> (\<exists>r. calculate_z_score_3yr ex_price ex_nav as_of = Some r
          \<and> map_of r ''status'' = Some (PStr ''active''))"
proof -
  have a1: "available_data ex_small_price ex_small_nav (2024, 3, 4) \<noteq> []"
    by (simp add: ex_small_leap)
  have l2: "length (window_data ex_price ex_nav as_of) = 252"
    by (simp add: ex_window length_aligned_series)
  have a2: "available_data ex_price ex_nav as_of \<noteq> []"
    using l2 by (intro accepted_reached) simp
  show ?thesis
    using threshold_policy [OF a1] threshold_policy [OF a2] a1 a2 l2
    by (simp add: ex_small_leap)
qed



text \<open>
  Claim C6, on a concrete input with a zero price close, a negative NAV close and
  unmatched dates: only the row of 2024-01-02 is aligned.
\<close>

theorem aligned_positive_witness:
  "merged ex_bad_price ex_bad_nav = [\<lparr>date = (2024, 1, 2), close_price = 10, close_nav = 9\<rparr>]
   \<and> set (merged ex_bad_price ex_bad_nav) =
        {\<lparr>date = date a, close_price = close a, close_nav = close b\<rparr> | a b.
           a \<in> set ex_bad_price \<and> b \<in> set ex_bad_nav \<and> date b = date a
         \<and> 0 < close a \<and> 0 < close b}
   \<and> 0 < close_price (hd (merged ex_bad_price ex_bad_nav))
   \<and> 0 < close_nav (hd (merged ex_bad_price ex_bad_nav))"
proof -
  have m: "merged ex_bad_price ex_bad_nav =
      [\<lparr>date = (2024, 1, 2), close_price = 10, close_nav = 9\<rparr>]"
    by (rule ex_bad_merged)
  have "hd (merged ex_bad_price ex_bad_nav) \<in> set (merged ex_bad_price ex_bad_nav)"
    unfolding m by simp
  then show ?thesis
    using aligned_positive [of ex_bad_price ex_bad_nav "(2024, 1, 31)"] m by blast
qed

text \<open>
  Claim C7, on a concrete input: reversing both series leaves the aligned frame
  unchanged.
\<close>

theorem alignment_order_insensitive_witness:
  "distinct (map date ex_small_price) \<and> distinct (map date ex_small_nav)
   \<and> mset (rev ex_small_price) = mset ex_small_price
   \<and> mset (rev ex_small_nav) = mset ex_small_nav
   \<and> merged (rev ex_small_price) (rev ex_small_nav) = merged ex_small_price ex_small_nav
   \<and> map date (merged ex_small_price ex_small_nav) =
        [(2021, 2, 27), (2021, 2, 28), (2023, 6, 15), (2024, 2, 29), (2024, 3, 5)]
   \<and> sorted (map date (merged ex_small_price ex_small_nav))"
proof -
  have d1: "distinct (map date ex_small_price)"
    by (simp add: ex_small_price_def)
  have d2: "distinct (map date ex_small_nav)"
    by (simp add: ex_small_nav_def)
  have p1: "mset (rev ex_small_price) = mset ex_small_price"
    by (rule mset_rev)
  have p2: "mset (rev ex_small_nav) = mset ex_small_nav"
    by (rule mset_rev)
  have m: "map date (merged ex_small_price ex_small_nav) =
        [(2021, 2, 27), (2021, 2, 28), (2023, 6, 15), (2024, 2, 29), (2024, 3, 5)]"
    by (simp add: ex_small_merged)
  show ?thesis
    using alignment_order_insensitive [OF d1 d2] d1 d2 p1 p2 m by blast
qed

text \<open>
  Claim C8, on concrete inputs, one for each of the cases.
\<close>

theorem no_data_outcome_witness:
  "calculate_z_score_3yr [] ex_small_nav (2024, 3, 4) = None
   \<and> calculate_z_score_3yr ex_small_price [] (2024, 3, 4) = None
   \<and> calculate_z_score_3yr [\<lparr>date = (2024, 1, 2), close = 10\<rparr>]
        [\<lparr>date = (2024, 1, 3), close = 10\<rparr>] (2024, 3, 4) = None
   \<and> calculate_z_score_3yr [\<lparr>date = (2024, 1, 2), close = 0\<rparr>]
        [\<lparr>date = (2024, 1, 2), close = 10\<rparr>] (2024, 3, 4) = None
   \<and> map date (merged ex_small_price ex_small_nav) =
        [(2021, 2, 27), (2021, 2, 28), (2023, 6, 15), (2024, 2, 29), (2024, 3, 5)]
   \<and> calculate_z_score_3yr ex_small_price ex_small_nav (2021, 2, 2) = None"
proof -
  have 1: "calculate_z_score_3yr [] ex_small_nav (2024, 3, 4) = None"
    by (rule no_data_outcome) simp
  have 2: "calculate_z_score_3yr ex_small_price [] (2024, 3, 4) = None"
    by (rule no_data_outcome) simp
  have 3: "calculate_z_score_3yr [\<lparr>date = (2024, 1, 2), close = 10\<rparr>]
        [\<lparr>date = (2024, 1, 3), close = 10\<rparr>] (2024, 3, 4) = None"
    by (rule no_data_outcome) (simp add: merged_filtered_def pd_merge_def)
  have 4: "calculate_z_score_3yr [\<lparr>date = (2024, 1, 2), close = 0\<rparr>]
        [\<lparr>date = (2024, 1, 2), close = 10\<rparr>] (2024, 3, 4) = None"
    by (rule no_data_outcome) (simp add: merged_filtered_def pd_merge_def positive_closes_def)
  have h: "\<forall>r \<in> set (merged ex_small_price ex_small_nav). \<not> date r \<le> (2021, 2, 2)"
    by (simp add: ex_small_merged)
  have 5: "calculate_z_score_3yr ex_small_price ex_small_nav (2021, 2, 2) = None"
    using h by (intro no_data_outcome) blast
  have m: "map date (merged ex_small_price ex_small_nav) =
        [(2021, 2, 27), (2021, 2, 28), (2023, 6, 15), (2024, 2, 29), (2024, 3, 5)]"
    by (simp add: ex_small_merged)
  show ?thesis
    using 1 2 3 4 m 5 by blast
qed

text \<open>
  Claim C10, on concrete inputs: one insufficient result and one active result.
\<close>

theorem result_fields_witness:
  "calculate_z_score_3yr ex_small_price ex_small_nav (2024, 3, 4) =
        Some [(''status'', PStr ''insufficient_data''), (''data_points'', PInt 3),
              (''required'', PInt 252)]
   \<and> length (window_data ex_small_price ex_small_nav (2024, 3, 4)) < 252
   \<and> (\<exists>r. calculate_z_score_3yr ex_price ex_nav as_of = Some r
          \<and> map_of r ''status'' = Some (PStr ''active'')
          \<and> map fst r = [''z_score'', ''current_pd'', ''current_pd_pct'', ''avg_pd'',
                          ''avg_pd_pct'', ''stddev_pd'', ''stddev_pd_pct'', ''data_points'',
                          ''start_date'', ''end_date'', ''status''])"
proof -
  have av: "available_data ex_small_price ex_small_nav (2024, 3, 4) \<noteq> []"
    by (simp add: ex_small_leap)
  have c1: "calculate_z_score_3yr ex_small_price ex_small_nav (2024, 3, 4) =
        Some [(''status'', PStr ''insufficient_data''), (''data_points'', PInt 3),
              (''required'', PInt 252)]"
    by (simp add: calc_reached [OF av] ex_small_leap insufficient_result_def)
  have s1: "map_of [(''status'', PStr ''insufficient_data''), (''data_points'', PInt 3),
              (''required'', PInt 252)] ''status'' = Some (PStr ''insufficient_data'')"
    by simp
  have len: "252 \<le> length (window_data ex_price ex_nav as_of)"
    by (simp add: ex_window length_aligned_series)
  have "\<exists>r. calculate_z_score_3yr ex_price ex_nav as_of = Some r
          \<and> map_of r ''status'' = Some (PStr ''active'')"
    by (simp add: calc_reached [OF accepted_reached [OF len]] ex_window ex_stats
          length_aligned_series active_result_def)
  then obtain r where r: "calculate_z_score_3yr ex_price ex_nav as_of = Some r"
    and st: "map_of r ''status'' = Some (PStr ''active'')"
    by blast
  have keys: "map fst r = [''z_score'', ''current_pd'', ''current_pd_pct'', ''avg_pd'',
                          ''avg_pd_pct'', ''stddev_pd'', ''stddev_pd_pct'', ''data_points'',
                          ''start_date'', ''end_date'', ''status'']"
    using result_fields [OF r, THEN conjunct2, THEN conjunct1] st by (rule mp)
  have lt: "length (window_data ex_small_price ex_small_nav (2024, 3, 4)) < 252"
    by (rule result_fields [OF c1, THEN conjunct1, THEN mp, OF s1, THEN conjunct2, THEN conjunct1])
  show ?thesis
    apply (intro conjI)
      apply (rule c1)
     apply (rule lt)
    apply (rule exI [of _ r])
    apply (intro conjI r st keys)
    done
qed

end
